theory Spec2Isabelle
  imports Complex_Main "HOL-Library.Multiset"
begin

section \<open>Data model of \<open>src/datasets/data_set.py\<close>\<close>

text \<open>
  A field of a row is a Python number or a Python string. Python's \<open>int\<close> and \<open>float\<close>
  are both read as mathematical reals: \<open>+\<close>, \<open>-\<close>, \<open>/\<close>, \<open>**2\<close>, \<open>math.sqrt\<close> and
  \<open>math.floor\<close> are the exact operations, so rounding, overflow, \<open>inf\<close> and \<open>nan\<close> are
  outside this model. \<open>isinstance(v, str)\<close> is the test for the constructor \<open>Str\<close>.
\<close>

datatype pyval = Num real | Str string

datatype py_error = IndexError | TypeError | ValueError | ZeroDivisionError

type_synonym row = "pyval list"

text \<open>
  The attribute \<open>self.data\<close> is a Python list of row objects: a list of references. A row
  object is mutated in place by \<open>row[col] = ...\<close>, and list slicing copies references, not
  rows. So a data set holds addresses, and the rows live in a store.
\<close>

type_synonym addr = nat

type_synonym heap = "addr \<Rightarrow> row"

record dataset =
  data :: "addr list"
  class_col :: nat
  attr_cols :: "nat list"
  filename :: string

text \<open>\<open>DataSet.__init__(self, data, class_col, attr_cols, filename="")\<close>.\<close>

definition DataSet :: "addr list \<Rightarrow> nat \<Rightarrow> nat list \<Rightarrow> string \<Rightarrow> dataset" where
  "DataSet d c a f = \<lparr>data = d, class_col = c, attr_cols = a, filename = f\<rparr>"

text \<open>The values of a data set's rows, in order, read from the store.\<close>

definition rows_of :: "heap \<Rightarrow> dataset \<Rightarrow> row list" where
  "rows_of h ds = map h (data ds)"

subsection \<open>Python slicing\<close>

text \<open>
  A slice bound \<open>i\<close> of a list of length \<open>n\<close>: a negative bound counts from the end, and
  every bound is clamped to \<open>0..n\<close>. \<open>xs[:j]\<close>, \<open>xs[i:]\<close> and \<open>xs[i:j]\<close> never raise.
\<close>

definition slice_index :: "nat \<Rightarrow> int \<Rightarrow> nat" where
  "slice_index n i = (if i < 0 then nat (max 0 (int n + i)) else min (nat i) n)"

definition slice_to :: "int \<Rightarrow> 'a list \<Rightarrow> 'a list" where
  "slice_to j xs = take (slice_index (length xs) j) xs"

definition slice_from :: "int \<Rightarrow> 'a list \<Rightarrow> 'a list" where
  "slice_from i xs = drop (slice_index (length xs) i) xs"

definition slice :: "int \<Rightarrow> int \<Rightarrow> 'a list \<Rightarrow> 'a list" where
  "slice i j xs = drop (slice_index (length xs) i) (take (slice_index (length xs) j) xs)"

subsection \<open>\<open>DataSet.partition\<close>\<close>


subsection \<open>\<open>DataSet.validation_folds\<close>\<close>

text \<open>An entry of the returned list: the dictionary with the keys \<open>'test'\<close> and \<open>'train'\<close>.\<close>

record fold =
  test :: dataset
  train :: dataset

text \<open>
  The first loop, for a positive \<open>n\<close>: \<open>avg_size = len(self.data) / n\<close> is a true division,
  and section \<open>i\<close> is \<open>self.data[floor(avg_size*i):]\<close> when \<open>i == n-1\<close> and
  \<open>self.data[floor(avg_size*i):floor(avg_size*(i+1))]\<close> otherwise.
\<close>

definition avg_size :: "addr list \<Rightarrow> nat \<Rightarrow> real" where
  "avg_size rows n = real (length rows) / real n"

definition section_at :: "addr list \<Rightarrow> nat \<Rightarrow> nat \<Rightarrow> addr list" where
  "section_at rows n i =
     (if int i = int n - 1
      then slice_from \<lfloor>avg_size rows n * real i\<rfloor> rows
      else slice \<lfloor>avg_size rows n * real i\<rfloor> \<lfloor>avg_size rows n * real (i + 1)\<rfloor> rows)"

definition sections_of :: "addr list \<Rightarrow> nat \<Rightarrow> addr list list" where
  "sections_of rows n = map (section_at rows n) [0..<n]"

text \<open>
  The inner loop of the second loop: \<open>train = []\<close>, then for \<open>j\<close> in \<open>range(n)\<close>,
  \<open>train += sections[j]\<close> when \<open>i != j\<close>.
\<close>

definition train_rows :: "addr list list \<Rightarrow> nat \<Rightarrow> nat \<Rightarrow> addr list" where
  "train_rows sections n i =
     foldl (\<lambda>tr j. if i \<noteq> j then tr @ sections ! j else tr) [] [0..<n]"

definition fold_at :: "dataset \<Rightarrow> addr list list \<Rightarrow> nat \<Rightarrow> nat \<Rightarrow> fold" where
  "fold_at ds sections n i =
     \<lparr>test = DataSet (sections ! i) (class_col ds) (attr_cols ds) '''',
      train = DataSet (train_rows sections n i) (class_col ds) (attr_cols ds) ''''\<rparr>"

text \<open>
  \<open>n\<close> is a Python integer. \<open>len(self.data) / 0\<close> raises \<open>ZeroDivisionError\<close>; for a negative
  \<open>n\<close> both \<open>range(n)\<close> are empty and the result is the empty list.
\<close>

definition validation_folds :: "dataset \<Rightarrow> int \<Rightarrow> py_error + fold list" where
  "validation_folds ds n =
     (if n = 0 then Inl ZeroDivisionError
      else let m = nat n; sections = sections_of (data ds) m
           in Inr (map (fold_at ds sections m) [0..<m]))"


definition fold_sizes_sum :: "fold list \<Rightarrow> nat" where
  "fold_sizes_sum fs = sum_list (map (\<lambda>f. length (data (train f)) + length (data (test f))) fs)"


text \<open>
  The exact value of \<open>floor(avg_size * i)\<close> for \<open>len\<close> rows and \<open>n\<close> sections:
  \<open>floor(len * i / n)\<close>.
\<close>

definition boundary :: "nat \<Rightarrow> nat \<Rightarrow> nat \<Rightarrow> nat" where
  "boundary len n i = (len * i) div n"

subsection \<open>\<open>DataSet.get_str_attr_cols\<close> and \<open>DataSet.distance\<close>\<close>

text \<open>
  \<open>row[col]\<close> for a column index. Column indices are natural numbers here: the callers
  build them with \<open>range\<close>, and Python's negative indices are not modelled.
\<close>

definition get_item :: "row \<Rightarrow> nat \<Rightarrow> py_error + pyval" where
  "get_item r c = (if c < length r then Inr (r ! c) else Inl IndexError)"







subsection \<open>The distance as the specification words it\<close>







text \<open>A store with three rows of one numeric and two string fields, and a data set on it.\<close>

definition example_heap :: heap where
  "example_heap =
     (\<lambda>_. [])(0 := [Num 0, Str ''x'', Str ''A''],
              1 := [Num 3, Str ''x'', Str ''A''],
              2 := [Num 6, Str ''y'', Str ''B''])"

definition example_ds :: dataset where
  "example_ds = DataSet [0, 1, 2] 2 [0, 1] ''example''"

subsection \<open>\<open>DataSet.convert_attribute\<close>\<close>

text \<open>
  The dictionary \<open>value_map\<close> is a partial map on field values. For each row in turn,
  \<open>row[col]\<close> is read (an \<open>IndexError\<close> when the row is too short) and, when it is a key of
  the map, the row object is updated in place.
\<close>

fun convert_attribute_loop :: "heap \<Rightarrow> addr list \<Rightarrow> nat \<Rightarrow> (pyval \<rightharpoonup> pyval) \<Rightarrow> py_error + heap" where
  "convert_attribute_loop h [] col value_map = Inr h"
| "convert_attribute_loop h (r # rs) col value_map =
     (case get_item (h r) col of
        Inl e \<Rightarrow> Inl e
      | Inr v \<Rightarrow>
          (case value_map v of
             None \<Rightarrow> convert_attribute_loop h rs col value_map
           | Some w \<Rightarrow> convert_attribute_loop (h(r := (h r)[col := w])) rs col value_map))"

definition convert_attribute :: "heap \<Rightarrow> dataset \<Rightarrow> nat \<Rightarrow> (pyval \<rightharpoonup> pyval) \<Rightarrow> py_error + heap" where
  "convert_attribute h ds col value_map = convert_attribute_loop h (data ds) col value_map"

subsection \<open>\<open>DataSet.convert_to_float\<close>\<close>





subsection \<open>Reading a data set after a mutating call\<close>


definition rows_after :: "py_error + heap \<Rightarrow> dataset \<Rightarrow> py_error + row list" where
  "rows_after res ds = (case res of Inl e \<Rightarrow> Inl e | Inr h \<Rightarrow> Inr (rows_of h ds))"


text \<open>
  A value map in the manner of \<open>get_car_data\<close>, which sends strings to numbers, and the two
  folds of the example data set.
\<close>

definition example_map :: "pyval \<rightharpoonup> pyval" where
  "example_map = [Str ''x'' \<mapsto> Num 7, Str ''y'' \<mapsto> Num 8]"

definition example_folds :: "fold list" where
  "example_folds = (case validation_folds example_ds 2 of Inl e \<Rightarrow> [] | Inr fs \<Rightarrow> fs)"





subsection \<open>\<open>DataSet.normalize_z_score\<close>\<close>








subsection \<open>The z-score as the specification words it\<close>







subsection \<open>\<open>random.sample\<close> and \<open>DataSet.sample\<close>\<close>





section \<open>\<open>src/algorithms/edited_knn.py\<close>\<close>

text \<open>
  \<open>EditedKNN\<close> extends \<open>KNN\<close>, whose module is not among the sources, so the constructor
  of \<open>KNN\<close> is the parameter \<open>KNN_init\<close>: it builds the object from the training data
  and \<open>k\<close>. The body of \<open>edit_training_data\<close> is a comment and the expression statement
  \<open>'empty'\<close>, which evaluates a string and has no effect on the object.
\<close>

definition edit_training_data :: "'self \<Rightarrow> 'self" where
  "edit_training_data self = self"

text \<open>\<open>EditedKNN.__init__\<close>: \<open>super().__init__(training_data, k)\<close>, then
  \<open>self.edit_training_data()\<close>.\<close>

definition EditedKNN_init :: "(dataset \<Rightarrow> int \<Rightarrow> 'self) \<Rightarrow> dataset \<Rightarrow> int \<Rightarrow> 'self" where
  "EditedKNN_init KNN_init training_data k = edit_training_data (KNN_init training_data k)"

section \<open>Slicing lemmas\<close>

lemma slice_to_from_append: "slice_to c xs @ slice_from c xs = xs"
  by (simp add: slice_to_def slice_from_def)

lemma slice_index_nat: "slice_index n (int k) = min k n"
  by (simp add: slice_index_def)

lemma slice_nat: "slice (int i) (int j) xs = drop i (take j xs)"
  by (simp add: slice_def slice_index_nat min_def)

lemma slice_from_nat: "slice_from (int i) xs = drop i xs"
  by (simp add: slice_from_def slice_index_nat min_def)


section \<open>Partition\<close>





section \<open>Cross-validation folds\<close>

lemma boundary_div:
  "\<lfloor>avg_size rows n * real i\<rfloor> = int (boundary (length rows) n i)"
proof -
  have "avg_size rows n * real i = real (length rows * i) / real n"
    by (simp add: avg_size_def)
  then show ?thesis
    by (simp only: floor_divide_of_nat_eq boundary_def)
qed

lemma boundary_0: "boundary len n 0 = 0"
  by (simp add: boundary_def)

lemma boundary_n: "0 < n \<Longrightarrow> boundary len n n = len"
  by (simp add: boundary_def)

lemma boundary_mono: "i \<le> j \<Longrightarrow> boundary len n i \<le> boundary len n j"
  by (simp add: boundary_def div_le_mono)

lemma section_at_eq:
  assumes "i < n"
  shows "section_at rows n i
         = drop (boundary (length rows) n i) (take (boundary (length rows) n (Suc i)) rows)"
proof (cases "Suc i = n")
  case True
  then have "int i = int n - 1" by simp
  moreover have "boundary (length rows) n (Suc i) = length rows"
    using True assms boundary_n [of n "length rows"] by simp
  ultimately show ?thesis
    by (simp add: section_at_def boundary_div slice_from_nat)
next
  case False
  then have "int i \<noteq> int n - 1" by linarith
  then show ?thesis
    using boundary_div [of rows n "i + 1"]
    by (simp add: section_at_def boundary_div slice_nat del: of_nat_Suc of_nat_add)
qed

lemma concat_consecutive_slices:
  assumes "b 0 = 0" and "\<And>i. b i \<le> b (Suc i)"
  shows "concat (map (\<lambda>i. drop (b i) (take (b (Suc i)) xs)) [0..<k]) = take (b k) xs"
proof (induction k)
  case 0
  then show ?case by (simp add: assms(1))
next
  case (Suc k)
  have "take (b k) xs @ drop (b k) (take (b (Suc k)) xs) = take (b (Suc k)) xs"
    using assms(2) [of k]
    by (metis append_take_drop_id min.absorb1 take_take)
  with Suc show ?case by simp
qed

lemma concat_sections_of:
  assumes "0 < n"
  shows "concat (sections_of rows n) = rows"
proof -
  have "sections_of rows n
        = map (\<lambda>i. drop (boundary (length rows) n i)
                     (take (boundary (length rows) n (Suc i)) rows)) [0..<n]"
    by (simp add: sections_of_def section_at_eq)
  then have "concat (sections_of rows n) = take (boundary (length rows) n n) rows"
    using concat_consecutive_slices [where b = "boundary (length rows) n" and k = n and xs = rows]
    by (simp add: boundary_0 boundary_mono)
  then show ?thesis using assms by (simp add: boundary_n)
qed

lemma length_sections_of: "length (sections_of rows n) = n"
  by (simp add: sections_of_def)

lemma train_rows_foldl:
  "foldl (\<lambda>tr j. if i \<noteq> j then tr @ secs ! j else tr) acc js
   = acc @ concat (map (\<lambda>j. if i \<noteq> j then secs ! j else []) js)"
  by (induction js arbitrary: acc) simp_all

lemma train_rows_concat:
  "train_rows secs n i = concat (map (\<lambda>j. if i \<noteq> j then secs ! j else []) [0..<n])"
  by (simp add: train_rows_def train_rows_foldl)

lemma mset_skip_one:
  assumes "distinct js"
  shows "mset (concat (map (\<lambda>j. if i \<noteq> j then secs ! j else []) js))
         + (if i \<in> set js then mset (secs ! i) else {#})
         = mset (concat (map (\<lambda>j. secs ! j) js))"
  using assms by (induction js) auto

lemma mset_train_test:
  assumes "i < length secs"
  shows "mset (train_rows secs (length secs) i) + mset (secs ! i) = mset (concat secs)"
proof -
  have "mset (train_rows secs (length secs) i) + mset (secs ! i)
        = mset (concat (map (\<lambda>j. secs ! j) [0..<length secs]))"
    using mset_skip_one [of "[0..<length secs]" i secs] assms
    by (simp add: train_rows_concat)
  then show ?thesis by (simp add: map_nth)
qed

lemma validation_folds_Inr:
  assumes "1 \<le> n"
  shows "validation_folds ds n
         = Inr (map (fold_at ds (sections_of (data ds) (nat n)) (nat n)) [0..<nat n])"
  using assms by (simp add: validation_folds_def Let_def)

lemma fold_at_data:
  "data (test (fold_at ds secs n i)) = secs ! i"
  "data (train (fold_at ds secs n i)) = train_rows secs n i"
  by (simp_all add: fold_at_def DataSet_def)

lemma fold_at_mset:
  assumes "0 < n" and "i < n"
  shows "mset (data (train (fold_at ds (sections_of (data ds) n) n i)))
         + mset (data (test (fold_at ds (sections_of (data ds) n) n i))) = mset (data ds)"
  using mset_train_test [of i "sections_of (data ds) n"] assms
  by (simp add: fold_at_data length_sections_of concat_sections_of)

lemma fold_at_sizes:
  assumes "0 < n" and "i < n"
  shows "length (data (train (fold_at ds (sections_of (data ds) n) n i)))
         + length (data (test (fold_at ds (sections_of (data ds) n) n i))) = length (data ds)"
proof -
  have "size (mset (data (train (fold_at ds (sections_of (data ds) n) n i)))
         + mset (data (test (fold_at ds (sections_of (data ds) n) n i)))) = size (mset (data ds))"
    by (simp only: fold_at_mset [OF assms])
  then show ?thesis by simp
qed

lemma sum_list_const_upt:
  assumes "\<And>i. i < n \<Longrightarrow> g i = (c::nat)"
  shows "sum_list (map g [0..<n]) = n * c"
  using assms by (induction n) simp_all

text \<open>
  C3. For \<open>n \<ge> 1\<close>, \<open>validation_folds(n)\<close> returns \<open>n\<close> folds; the sum over the folds of
  \<open>len(train) + len(test)\<close> is \<open>n\<close> times the row count; and in each fold the multiset of
  the train rows plus the multiset of the test rows is the multiset of the rows of the
  source, as row references and hence as row values in every store.
\<close>

theorem validation_folds_cover:
  assumes "1 \<le> n"
  shows "\<exists>fs. validation_folds ds n = Inr fs \<and> length fs = nat n
          \<and> fold_sizes_sum fs = nat n * length (data ds)
          \<and> (\<forall>f \<in> set fs. mset (data (train f)) + mset (data (test f)) = mset (data ds))
          \<and> (\<forall>f \<in> set fs. \<forall>h. mset (rows_of h (train f)) + mset (rows_of h (test f))
                                    = mset (rows_of h ds))"
proof -
  define m where "m = nat n"
  define fs where "fs = map (fold_at ds (sections_of (data ds) m) m) [0..<m]"
  have m_pos: "0 < m" using assms by (simp add: m_def)
  have run: "validation_folds ds n = Inr fs"
    using validation_folds_Inr [OF assms] by (simp add: fs_def m_def)
  have len: "length fs = m" by (simp add: fs_def)
  have "fold_sizes_sum fs
        = sum_list (map (\<lambda>i. length (data (train (fold_at ds (sections_of (data ds) m) m i)))
                              + length (data (test (fold_at ds (sections_of (data ds) m) m i))))
                    [0..<m])"
    by (simp add: fold_sizes_sum_def fs_def comp_def)
  also have "\<dots> = m * length (data ds)"
    by (rule sum_list_const_upt) (simp add: fold_at_sizes [OF m_pos])
  finally have total: "fold_sizes_sum fs = m * length (data ds)" .
  have each: "mset (data (train f)) + mset (data (test f)) = mset (data ds)" if "f \<in> set fs" for f
    using that fold_at_mset [OF m_pos] by (auto simp: fs_def)
  have each_rows: "mset (rows_of h (train f)) + mset (rows_of h (test f)) = mset (rows_of h ds)"
    if "f \<in> set fs" for f h
  proof -
    have "image_mset h (mset (data (train f)) + mset (data (test f))) = image_mset h (mset (data ds))"
      by (simp only: each [OF that])
    then show ?thesis by (simp add: rows_of_def)
  qed
  show ?thesis
    using run len total each each_rows unfolding m_def by blast
qed

theorem validation_folds_cover_witness:
  "\<exists>fs. validation_folds (DataSet [5, 6, 7] 0 [] '''') 2 = Inr fs \<and> length fs = 2
      \<and> fold_sizes_sum fs = 6 \<and> mset (data (train (fs ! 0))) + mset (data (test (fs ! 0))) = {#5, 6, 7#}"
proof -
  have "(1::int) \<le> 2" by simp
  from validation_folds_cover [OF this, of "DataSet [5, 6, 7] 0 [] ''''"]
  obtain fs where fs: "validation_folds (DataSet [5, 6, 7] 0 [] '''') 2 = Inr fs" "length fs = 2"
    "fold_sizes_sum fs = 6"
    "\<forall>f \<in> set fs. mset (data (train f)) + mset (data (test f)) = {#5, 6, 7#}"
    by (auto simp: DataSet_def)
  from fs(2) have "fs ! 0 \<in> set fs" by simp
  with fs(4) have "mset (data (train (fs ! 0))) + mset (data (test (fs ! 0))) = {#5, 6, 7#}"
    by blast
  with fs(1,2,3) show ?thesis by blast
qed







section \<open>Distance\<close>

















section \<open>The string columns after a conversion\<close>









lemma example_folds_eq:
  "example_folds = [\<lparr>test = DataSet [0] 2 [0, 1] '''', train = DataSet [1, 2] 2 [0, 1] ''''\<rparr>,
                    \<lparr>test = DataSet [1, 2] 2 [0, 1] '''', train = DataSet [0] 2 [0, 1] ''''\<rparr>]"
  by (simp add: example_folds_def validation_folds_def sections_of_def section_at_eq
      boundary_def fold_at_def example_ds_def DataSet_def Let_def upt_rec train_rows_def)




section \<open>Row sharing between folds\<close>

lemma set_train_rows:
  "set (train_rows secs n j) = (\<Union>k \<in> {k. k < n \<and> k \<noteq> j}. set (secs ! k))"
  by (auto simp: train_rows_concat)

text \<open>
  C9 as stated fails: the folds hold the row objects of the source. Converting column 1
  through the train set of fold 0 changes the rows seen through the test set of fold 1
  and through the source data set.
\<close>

theorem folds_share_rows_counterexample:
  "rows_of example_heap (test (example_folds ! 1))
     = [[Num 3, Str ''x'', Str ''A''], [Num 6, Str ''y'', Str ''B'']]
 \<and> rows_after (convert_attribute example_heap (train (example_folds ! 0)) 1 example_map)
       (test (example_folds ! 1))
     = Inr [[Num 3, Num 7, Str ''A''], [Num 6, Num 8, Str ''B'']]
 \<and> rows_of example_heap example_ds
     = [[Num 0, Str ''x'', Str ''A''], [Num 3, Str ''x'', Str ''A''], [Num 6, Str ''y'', Str ''B'']]
 \<and> rows_after (convert_attribute example_heap (train (example_folds ! 0)) 1 example_map)
       example_ds
     = Inr [[Num 0, Str ''x'', Str ''A''], [Num 3, Num 7, Str ''A''], [Num 6, Num 8, Str ''B'']]"
  by (simp add: example_folds_eq rows_of_def rows_after_def convert_attribute_def
      example_heap_def example_ds_def example_map_def DataSet_def get_item_def)

text \<open>
  C9, as the code has it. \<open>validation_folds\<close> builds new row lists but copies no row: in
  every fold the test rows and the train rows together are exactly the row objects of the
  source, and the test rows of a fold are train rows of every other fold. A row mutated in
  place through one of these data sets is the same object in all the others that hold it.
\<close>

theorem validation_folds_share_row_objects:
  assumes "1 \<le> n"
  shows "\<exists>fs. validation_folds ds n = Inr fs \<and> length fs = nat n
          \<and> (\<forall>i < nat n.
                set (data (test (fs ! i))) \<union> set (data (train (fs ! i))) = set (data ds)
              \<and> (\<forall>j < nat n. i \<noteq> j \<longrightarrow>
                    set (data (test (fs ! i))) \<subseteq> set (data (train (fs ! j)))))"
proof -
  define m where "m = nat n"
  define secs where "secs = sections_of (data ds) m"
  define fs where "fs = map (fold_at ds secs m) [0..<m]"
  have m_pos: "0 < m" using assms by (simp add: m_def)
  have run: "validation_folds ds n = Inr fs"
    using validation_folds_Inr [OF assms] by (simp add: fs_def secs_def m_def)
  have len: "length fs = m" by (simp add: fs_def)
  have nth: "data (test (fs ! i)) = secs ! i" "data (train (fs ! i)) = train_rows secs m i"
    if "i < m" for i
    using that by (simp_all add: fs_def fold_at_data)
  have union: "set (data (test (fs ! i))) \<union> set (data (train (fs ! i))) = set (data ds)"
    if "i < m" for i
  proof -
    have "set_mset (mset (data (train (fs ! i))) + mset (data (test (fs ! i))))
          = set_mset (mset (data ds))"
      using fold_at_mset [OF m_pos that, of ds]
      by (simp only: nth [OF that] fold_at_data secs_def)
    then show ?thesis by auto
  qed
  have sub: "set (data (test (fs ! i))) \<subseteq> set (data (train (fs ! j)))"
    if "i < m" "j < m" "i \<noteq> j" for i j
    using that by (auto simp: nth set_train_rows)
  show ?thesis
    using run len union sub unfolding m_def by blast
qed

theorem validation_folds_share_row_objects_witness:
  "\<exists>fs. validation_folds example_ds 2 = Inr fs \<and> length fs = 2
      \<and> set (data (test (fs ! 0))) \<union> set (data (train (fs ! 0))) = {0, 1, 2}
      \<and> set (data (test (fs ! 0))) \<subseteq> set (data (train (fs ! 1)))"
proof -
  have "(1::int) \<le> 2" by simp
  from validation_folds_share_row_objects [OF this, of example_ds]
  obtain fs where fs: "validation_folds example_ds 2 = Inr fs" "length fs = 2"
    "\<forall>i < 2. set (data (test (fs ! i))) \<union> set (data (train (fs ! i))) = set (data example_ds)
        \<and> (\<forall>j < 2. i \<noteq> j \<longrightarrow> set (data (test (fs ! i))) \<subseteq> set (data (train (fs ! j))))"
    by auto
  from fs(3) have "set (data (test (fs ! 0))) \<union> set (data (train (fs ! 0))) = {0, 1, 2}"
    and "set (data (test (fs ! 0))) \<subseteq> set (data (train (fs ! 1)))"
    by (auto simp: example_ds_def DataSet_def)
  with fs(1,2) show ?thesis by blast
qed

section \<open>Normalisation\<close>


















section \<open>Sampling\<close>













section \<open>Edited k-NN\<close>

text \<open>
  C4 is not what the code does. Constructing an \<open>EditedKNN\<close> leaves the object exactly as
  the constructor of \<open>KNN\<close> built it: no pass is made and no training row is removed,
  whatever the training data.
\<close>

theorem edited_knn_makes_no_edit:
  "EditedKNN_init KNN_init training_data k = KNN_init training_data k"
  by (simp add: EditedKNN_init_def edit_training_data_def)

end
